theory Spec2Isabelle
  imports Main
begin

unbundle bit_operations_syntax

section \<open>Python values used by blockchain.py\<close>

text \<open>
  A Python \<^verbatim>\<open>str\<close> is a \<^typ>\<open>string\<close> whose characters are the code points below 256
  (ASCII and Latin-1). A Python \<^verbatim>\<open>int\<close> is an \<^typ>\<open>int\<close>. No arithmetic is ever done on a
  \<^verbatim>\<open>float\<close> by the ledger: a float (the \<^verbatim>\<open>time()\<close> stamp, an amount read by
  \<^verbatim>\<open>float(input())\<close>) only travels into \<^verbatim>\<open>json.dumps\<close>, so \<open>PyFloat\<close> and the timestamp
  carry the text \<^verbatim>\<open>json.dumps\<close> writes for the float: what \<^verbatim>\<open>float.__repr__\<close> gives for a
  finite float, and \<^verbatim>\<open>NaN\<close>, \<^verbatim>\<open>Infinity\<close> or \<^verbatim>\<open>-Infinity\<close> otherwise. That text determines
  the float. The type admits any text; only the texts of floats are values of the
  program, and no property below depends on which text it is.
\<close>

datatype py_error = IndexError

datatype number = PyInt int | PyFloat string

definition digit_char :: "int \<Rightarrow> char" where
  "digit_char d = ''0123456789abcdef'' ! nat d"

function dec_digits :: "int \<Rightarrow> string" where
  "dec_digits n = (if n < 10 then [digit_char n] else dec_digits (n div 10) @ [digit_char (n mod 10)])"
  by pat_completeness auto
termination
  by (relation "measure nat") auto

text \<open>\<^verbatim>\<open>str(n)\<close> and \<^verbatim>\<open>f'{n}'\<close> for an int.\<close>

definition str_int :: "int \<Rightarrow> string" where
  "str_int n = (if n < 0 then CHR ''-'' # dec_digits (- n) else dec_digits n)"

text \<open>\<^verbatim>\<open>f'{v}'\<close> for a value that is a str or None.\<close>

definition str_opt :: "string option \<Rightarrow> string" where
  "str_opt v = (case v of None \<Rightarrow> ''None'' | Some s \<Rightarrow> s)"

text \<open>\<^verbatim>\<open>str.encode()\<close>: UTF-8, one byte below 128 and two bytes from 128 to 255.\<close>

definition encode_char :: "char \<Rightarrow> string" where
  "encode_char c =
     (if (of_char c :: int) < 128 then [c]
      else [char_of (192 + (of_char c :: int) div 64), char_of (128 + (of_char c :: int) mod 64)])"

definition encode :: "string \<Rightarrow> string" where
  "encode s = concat (map encode_char s)"

subsection \<open>The JSON text of json.dumps\<close>

text \<open>
  The encoder's defaults are in force: \<^verbatim>\<open>ensure_ascii=True\<close>, item separator
  \<^verbatim>\<open>", "\<close>, key separator \<^verbatim>\<open>": "\<close>. A str is quoted; the quote, the backslash and every
  character outside space..tilde are escaped.
\<close>

definition json_escape :: "char \<Rightarrow> string" where
  "json_escape c =
     (if c = CHR 0x22 then [CHR 0x5C, CHR 0x22]
      else if c = CHR 0x5C then [CHR 0x5C, CHR 0x5C]
      else if c = CHR 0x0A then [CHR 0x5C, CHR ''n'']
      else if c = CHR 0x0D then [CHR 0x5C, CHR ''r'']
      else if c = CHR 0x09 then [CHR 0x5C, CHR ''t'']
      else if c = CHR 0x08 then [CHR 0x5C, CHR ''b'']
      else if c = CHR 0x0C then [CHR 0x5C, CHR ''f'']
      else if 32 \<le> (of_char c :: int) \<and> (of_char c :: int) \<le> 126 then [c]
      else [CHR 0x5C, CHR ''u'', CHR ''0'', CHR ''0'',
            digit_char ((of_char c :: int) div 16), digit_char ((of_char c :: int) mod 16)])"

definition json_str :: "string \<Rightarrow> string" where
  "json_str s = [CHR 0x22] @ concat (map json_escape s) @ [CHR 0x22]"

definition json_opt_str :: "string option \<Rightarrow> string" where
  "json_opt_str v = (case v of None \<Rightarrow> ''null'' | Some s \<Rightarrow> json_str s)"

definition json_number :: "number \<Rightarrow> string" where
  "json_number v = (case v of PyInt n \<Rightarrow> str_int n | PyFloat r \<Rightarrow> r)"

fun join :: "string \<Rightarrow> string list \<Rightarrow> string" where
  "join sep [] = []"
| "join sep [x] = x"
| "join sep (x # y # ys) = x @ sep @ join sep (y # ys)"

section \<open>hashlib.sha256\<close>

text \<open>
  SHA-256 as FIPS 180-4 defines it. A 32-bit word is an \<^typ>\<open>int\<close> in \<open>0..<2^32\<close>; every
  operation that can leave the range is masked back into it. The sixty-four round
  constants (\<open>K256\<close>, from 0x428a2f98 to 0xc67178f2) are written in decimal.
\<close>

type_synonym u32 = int

definition add32 :: "u32 \<Rightarrow> u32 \<Rightarrow> u32" where
  "add32 x y = (x + y) AND 0xffffffff"

definition rotr :: "nat \<Rightarrow> u32 \<Rightarrow> u32" where
  "rotr n x = drop_bit n x OR (push_bit (32 - n) x AND 0xffffffff)"

definition shr :: "nat \<Rightarrow> u32 \<Rightarrow> u32" where
  "shr n x = drop_bit n x"

definition not32 :: "u32 \<Rightarrow> u32" where
  "not32 x = x XOR 0xffffffff"

definition Ch :: "u32 \<Rightarrow> u32 \<Rightarrow> u32 \<Rightarrow> u32" where
  "Ch x y z = (x AND y) XOR (not32 x AND z)"

definition Maj :: "u32 \<Rightarrow> u32 \<Rightarrow> u32 \<Rightarrow> u32" where
  "Maj x y z = (x AND y) XOR (x AND z) XOR (y AND z)"

definition Sigma0 :: "u32 \<Rightarrow> u32" where
  "Sigma0 x = rotr 2 x XOR rotr 13 x XOR rotr 22 x"

definition Sigma1 :: "u32 \<Rightarrow> u32" where
  "Sigma1 x = rotr 6 x XOR rotr 11 x XOR rotr 25 x"

definition sigma0 :: "u32 \<Rightarrow> u32" where
  "sigma0 x = rotr 7 x XOR rotr 18 x XOR shr 3 x"

definition sigma1 :: "u32 \<Rightarrow> u32" where
  "sigma1 x = rotr 17 x XOR rotr 19 x XOR shr 10 x"

definition K256 :: "u32 list" where
  "K256 = [
   1116352408, 1899447441, 3049323471, 3921009573, 961987163, 1508970993,
   2453635748, 2870763221, 3624381080, 310598401, 607225278, 1426881987,
   1925078388, 2162078206, 2614888103, 3248222580, 3835390401, 4022224774,
   264347078, 604807628, 770255983, 1249150122, 1555081692, 1996064986,
   2554220882, 2821834349, 2952996808, 3210313671, 3336571891, 3584528711,
   113926993, 338241895, 666307205, 773529912, 1294757372, 1396182291,
   1695183700, 1986661051, 2177026350, 2456956037, 2730485921, 2820302411,
   3259730800, 3345764771, 3516065817, 3600352804, 4094571909, 275423344,
   430227734, 506948616, 659060556, 883997877, 958139571, 1322822218,
   1537002063, 1747873779, 1955562222, 2024104815, 2227730452, 2361852424,
   2428436474, 2756734187, 3204031479, 3329325298]"

type_synonym sha_state = "u32 \<times> u32 \<times> u32 \<times> u32 \<times> u32 \<times> u32 \<times> u32 \<times> u32"

definition H256 :: sha_state where
  "H256 = (0x6a09e667, 0xbb67ae85, 0x3c6ef372, 0xa54ff53a, 0x510e527f, 0x9b05688c, 0x1f83d9ab, 0x5be0cd19)"

text \<open>
  The message schedule is a window of the sixteen latest words, oldest first: the next
  word is \<open>\<sigma>1(W[t-2]) + W[t-7] + \<sigma>0(W[t-15]) + W[t-16]\<close>.
\<close>

definition next_w :: "u32 list \<Rightarrow> u32 list" where
  "next_w w = tl w @ [add32 (add32 (add32 (sigma1 (w ! 14)) (w ! 9)) (sigma0 (w ! 1))) (w ! 0)]"

fun sha_step :: "u32 \<Rightarrow> u32 \<Rightarrow> sha_state \<Rightarrow> sha_state" where
  "sha_step t1 t2 (a, b, c, d, e, f, g, h) = (add32 t1 t2, a, b, c, add32 d t1, e, f, g)"

fun sha_round :: "u32 \<Rightarrow> u32 \<Rightarrow> sha_state \<Rightarrow> sha_state" where
  "sha_round k wt (a, b, c, d, e, f, g, h) =
     sha_step (add32 (add32 (add32 (add32 h (Sigma1 e)) (Ch e f g)) k) wt)
              (add32 (Sigma0 a) (Maj a b c))
              (a, b, c, d, e, f, g, h)"

fun sha_rounds :: "u32 list \<Rightarrow> u32 list \<Rightarrow> sha_state \<Rightarrow> sha_state" where
  "sha_rounds [] w s = s"
| "sha_rounds (k # ks) w s = sha_rounds ks (next_w w) (sha_round k (w ! 0) s)"

fun add_state :: "sha_state \<Rightarrow> sha_state \<Rightarrow> sha_state" where
  "add_state (a, b, c, d, e, f, g, h) (a', b', c', d', e', f', g', h') =
     (add32 a a', add32 b b', add32 c c', add32 d d', add32 e e', add32 f f', add32 g g', add32 h h')"

definition compress :: "sha_state \<Rightarrow> u32 list \<Rightarrow> sha_state" where
  "compress s w = add_state s (sha_rounds K256 w s)"

function sha_blocks :: "sha_state \<Rightarrow> u32 list \<Rightarrow> sha_state" where
  "sha_blocks s ws = (if ws = [] then s else sha_blocks (compress s (take 16 ws)) (drop 16 ws))"
  by pat_completeness auto
termination
  by (relation "measure (\<lambda>(s, ws). length ws)") auto

text \<open>Padding: the byte 0x80, zero bytes up to 56 modulo 64, the bit length on 8 bytes.\<close>

definition be_bytes :: "nat \<Rightarrow> int \<Rightarrow> int list" where
  "be_bytes n x = map (\<lambda>i. drop_bit (8 * i) x AND 0xff) (rev [0..<n])"

definition sha_pad :: "int list \<Rightarrow> int list" where
  "sha_pad m = m @ [0x80] @ replicate (nat ((55 - int (length m)) mod 64)) 0
                 @ be_bytes 8 (8 * int (length m))"

fun be_words :: "int list \<Rightarrow> u32 list" where
  "be_words (a # b # c # d # r) = (push_bit 24 a OR push_bit 16 b OR push_bit 8 c OR d) # be_words r"
| "be_words r = []"

definition hex32 :: "u32 \<Rightarrow> string" where
  "hex32 x = map (\<lambda>i. digit_char (drop_bit (4 * i) x AND 0xf)) (rev [0..<8])"

fun hex_state :: "sha_state \<Rightarrow> string" where
  "hex_state (a, b, c, d, e, f, g, h) =
     hex32 a @ hex32 b @ hex32 c @ hex32 d @ hex32 e @ hex32 f @ hex32 g @ hex32 h"

text \<open>\<^verbatim>\<open>hashlib.sha256(data).hexdigest()\<close>, the bytes given as characters.\<close>

definition sha256_hexdigest :: "string \<Rightarrow> string" where
  "sha256_hexdigest m = hex_state (sha_blocks H256 (be_words (sha_pad (map of_char m))))"

section \<open>The blockchain\<close>

record transaction =
  sender :: string
  recipient :: string
  amount :: number

text \<open>
  A block is the dict \<^verbatim>\<open>new_block\<close> builds. The key \<^verbatim>\<open>'proof'\<close> is the field
  \<open>proof_nonce\<close>; \<open>current_hash\<close> is \<open>None\<close> while it is the placeholder.
\<close>

record block =
  index :: int
  timestamp :: string
  transactions :: "transaction list"
  proof_nonce :: int
  previous_hash :: string
  current_hash :: "string option"

record blockchain =
  current_transactions :: "transaction list"
  chain :: "block list"

definition dumps_transaction :: "transaction \<Rightarrow> string" where
  \<open>dumps_transaction t =
     ''{"amount": '' @ json_number (amount t) @
     '', "recipient": '' @ json_str (recipient t) @
     '', "sender": '' @ json_str (sender t) @ ''}''\<close>

definition dumps :: "block \<Rightarrow> string" where
  \<open>dumps b =
     ''{"current_hash": '' @ json_opt_str (current_hash b) @
     '', "index": '' @ str_int (index b) @
     '', "previous_hash": '' @ json_str (previous_hash b) @
     '', "proof": '' @ str_int (proof_nonce b) @
     '', "timestamp": '' @ timestamp b @
     '', "transactions": ['' @ join '', '' (map dumps_transaction (transactions b)) @ '']}''\<close>

text \<open>\<^verbatim>\<open>Blockchain.hash\<close>.\<close>

definition hash :: "block \<Rightarrow> string" where
  "hash b = sha256_hexdigest (encode (dumps b))"

text \<open>\<^verbatim>\<open>Blockchain.valid_proof\<close>.\<close>

definition valid_proof :: "int \<Rightarrow> int \<Rightarrow> string \<Rightarrow> bool" where
  "valid_proof last_proof prf last_hash =
     (take 2 (sha256_hexdigest (encode (str_int last_proof @ str_int prf @ last_hash))) = ''00'')"

text \<open>
  The loop of \<^verbatim>\<open>Blockchain.proof_of_work\<close>, entered with \<open>prf = 0\<close>. It has no bound:
  \<open>None\<close> is the run that never leaves the loop.
\<close>

partial_function (option) pow_loop :: "int \<Rightarrow> string \<Rightarrow> int \<Rightarrow> int option" where
  "pow_loop last_proof last_hash prf =
     (if \<not> valid_proof last_proof prf last_hash then pow_loop last_proof last_hash (prf + 1)
      else Some prf)"

declare pow_loop.simps [code]

definition proof_of_work :: "block \<Rightarrow> int option" where
  "proof_of_work last_blk = pow_loop (proof_nonce last_blk) (hash last_blk) 0"

text \<open>\<^verbatim>\<open>Blockchain.last_block\<close>: \<^verbatim>\<open>self.chain[-1]\<close> raises on the empty list.\<close>

definition last_block :: "blockchain \<Rightarrow> py_error + block" where
  "last_block bc = (if chain bc = [] then Inl IndexError else Inr (last (chain bc)))"

text \<open>
  \<^verbatim>\<open>Blockchain.new_block\<close>. \<open>now\<close> is what \<^verbatim>\<open>time()\<close> returns. The argument
  \<open>previous\<close> is used when it is truthy (neither None nor the empty str); otherwise the
  last block is hashed, which raises on an empty chain before anything is changed.
\<close>

definition previous_or_hash :: "string option \<Rightarrow> blockchain \<Rightarrow> py_error + string" where
  "previous_or_hash previous bc =
     (case previous of
        Some s \<Rightarrow> (if s \<noteq> [] then Inr s else map_sum id hash (last_block bc))
      | None \<Rightarrow> map_sum id hash (last_block bc))"

definition new_block :: "string \<Rightarrow> int \<Rightarrow> string option \<Rightarrow> blockchain \<Rightarrow> (py_error + block) \<times> blockchain" where
  "new_block now prf previous bc =
     (case previous_or_hash previous bc of
        Inl e \<Rightarrow> (Inl e, bc)
      | Inr ph \<Rightarrow>
          (let blk = \<lparr>index = int (length (chain bc)) + 1, timestamp = now,
                      transactions = current_transactions bc, proof_nonce = prf,
                      previous_hash = ph, current_hash = None\<rparr>;
               blk' = blk\<lparr>current_hash := Some (hash blk)\<rparr>
           in (Inr blk', \<lparr>current_transactions = [], chain = chain bc @ [blk']\<rparr>)))"

text \<open>\<^verbatim>\<open>Blockchain.__init__\<close>.\<close>

definition Blockchain :: "string \<Rightarrow> blockchain" where
  "Blockchain now = snd (new_block now 100 (Some ''1'') \<lparr>current_transactions = [], chain = []\<rparr>)"

text \<open>
  \<^verbatim>\<open>Blockchain.new_transaction\<close>: the append comes first, so it is kept even when
  \<^verbatim>\<open>last_block\<close> raises.
\<close>

definition new_transaction :: "string \<Rightarrow> string \<Rightarrow> number \<Rightarrow> blockchain \<Rightarrow> (py_error + int) \<times> blockchain" where
  "new_transaction s r a bc =
     (let bc' = bc\<lparr>current_transactions :=
                     current_transactions bc @ [\<lparr>sender = s, recipient = r, amount = a\<rparr>]\<rparr>
      in (case last_block bc' of
            Inl e \<Rightarrow> (Inl e, bc')
          | Inr b \<Rightarrow> (Inr (index b + 1), bc')))"

text \<open>\<^verbatim>\<open>Blockchain.valid_chain\<close>: \<^verbatim>\<open>chain[0]\<close> raises on the empty list.\<close>

function valid_chain_loop :: "block list \<Rightarrow> block \<Rightarrow> nat \<Rightarrow> bool" where
  "valid_chain_loop c last_blk current_index =
     (if current_index < length c then
        (let blk = c ! current_index in
         if previous_hash blk \<noteq> hash last_blk then False
         else if \<not> valid_proof (proof_nonce last_blk) (proof_nonce blk) (str_opt (current_hash last_blk))
           then False
         else valid_chain_loop c blk (current_index + 1))
      else True)"
  by pat_completeness auto
termination
  by (relation "measure (\<lambda>(c, last_blk, current_index). length c - current_index)") auto

definition valid_chain :: "block list \<Rightarrow> py_error + bool" where
  "valid_chain c = (case c of [] \<Rightarrow> Inl IndexError | b # bs \<Rightarrow> Inr (valid_chain_loop c b 1))"

text \<open>
  \<^verbatim>\<open>mine_block\<close>. \<open>uuid\<close> is the text of \<^verbatim>\<open>str(uuid4())\<close> and \<open>now\<close> the
  \<^verbatim>\<open>time()\<close> read by \<^verbatim>\<open>new_block\<close>. The function returns nothing; what it prints
  tells the two ways out apart.
\<close>

datatype mined = NoTransactionsToMine | NewBlockMined block

definition printed :: "mined \<Rightarrow> string" where
  "printed m = (case m of
      NoTransactionsToMine \<Rightarrow> ''No transactions to mine.''
    | NewBlockMined b \<Rightarrow> ''New block mined! Block index: '' @ str_int (index b))"

definition mine_block :: "string \<Rightarrow> string \<Rightarrow> blockchain \<Rightarrow> ((py_error + mined) \<times> blockchain) option" where
  "mine_block uuid now bc =
     (if current_transactions bc = [] then Some (Inr NoTransactionsToMine, bc)
      else (case last_block bc of
              Inl e \<Rightarrow> Some (Inl e, bc)
            | Inr lb \<Rightarrow>
               (case proof_of_work lb of
                  None \<Rightarrow> None
                | Some prf \<Rightarrow>
                   (case new_transaction ''0'' (filter (\<lambda>c. c \<noteq> CHR ''-'') uuid) (PyInt 1) bc of
                      (Inl e, bc1) \<Rightarrow> Some (Inl e, bc1)
                    | (Inr i, bc1) \<Rightarrow>
                       (case new_block now prf None bc1 of
                          (Inl e, bc2) \<Rightarrow> Some (Inl e, bc2)
                        | (Inr b, bc2) \<Rightarrow> Some (Inr (NewBlockMined b), bc2))))))"

text \<open>
  A session with the ledger: a sequence of the two operations on a fresh \<^verbatim>\<open>Blockchain()\<close>.
  An exception ends the session (\<open>Inl\<close>); a mining loop that never returns gives \<open>None\<close>.
\<close>

datatype operation = SubmitTransaction string string number | MineBlock string string

fun apply_operation :: "operation \<Rightarrow> blockchain \<Rightarrow> (py_error + blockchain) option" where
  "apply_operation (SubmitTransaction s r a) bc =
     (case new_transaction s r a bc of
        (Inl e, bc') \<Rightarrow> Some (Inl e)
      | (Inr i, bc') \<Rightarrow> Some (Inr bc'))"
| "apply_operation (MineBlock uuid now) bc =
     (case mine_block uuid now bc of
        None \<Rightarrow> None
      | Some (Inl e, bc') \<Rightarrow> Some (Inl e)
      | Some (Inr m, bc') \<Rightarrow> Some (Inr bc'))"

fun run :: "operation list \<Rightarrow> blockchain \<Rightarrow> (py_error + blockchain) option" where
  "run [] bc = Some (Inr bc)"
| "run (operation # ops) bc =
     (case apply_operation operation bc of
        None \<Rightarrow> None
      | Some (Inl e) \<Rightarrow> Some (Inl e)
      | Some (Inr bc') \<Rightarrow> run ops bc')"

section \<open>Notions used by the properties\<close>

text \<open>
  One pass of the loop of \<^verbatim>\<open>valid_chain\<close> returns False unless both of its checks
  succeed on the pair (previous block, block).
\<close>

definition link_ok :: "block \<Rightarrow> block \<Rightarrow> bool" where
  "link_ok last_blk blk \<longleftrightarrow>
     previous_hash blk = hash last_blk \<and>
     valid_proof (proof_nonce last_blk) (proof_nonce blk) (str_opt (current_hash last_blk))"

text \<open>
  The block \<^verbatim>\<open>mine_block\<close> forges on a ledger with a last block, once the search has
  returned \<open>prf\<close>: the reward transaction is appended first, then \<^verbatim>\<open>new_block(proof)\<close>
  builds the block.
\<close>

definition forged :: "string \<Rightarrow> string \<Rightarrow> int \<Rightarrow> blockchain \<Rightarrow> block" where
  "forged uuid now prf bc =
     (let blk = \<lparr>index = int (length (chain bc)) + 1, timestamp = now,
                 transactions = current_transactions bc @
                   [\<lparr>sender = ''0'', recipient = filter (\<lambda>c. c \<noteq> CHR ''-'') uuid, amount = PyInt 1\<rparr>],
                 proof_nonce = prf, previous_hash = hash (last (chain bc)), current_hash = None\<rparr>
      in blk\<lparr>current_hash := Some (hash blk)\<rparr>)"

text \<open>Block indices count up from 1 along a non-empty chain.\<close>

definition contiguous :: "block list \<Rightarrow> bool" where
  "contiguous c \<longleftrightarrow> c \<noteq> [] \<and> (\<forall>k\<in>{0..<length c}. index (c ! k) = int k + 1)"

text \<open>
  Concrete blocks: the genesis block of a \<^verbatim>\<open>Blockchain()\<close> constructed when \<^verbatim>\<open>time()\<close>
  returns 1700001069.0, and a second block linked to it.
\<close>

definition example_genesis :: block where
  "example_genesis =
     \<lparr>index = 1, timestamp = ''1700001069.0'', transactions = [], proof_nonce = 100,
      previous_hash = ''1'',
      current_hash = Some ''c6036c568be949df3e288be1dcc5fcd7c6ea33ba9abf394c2cb971d6073b32f0''\<rparr>"

definition example_successor :: block where
  "example_successor =
     \<lparr>index = 2, timestamp = ''1700001200.0'', transactions = [], proof_nonce = 9,
      previous_hash = ''10fe3075643178ddb271449895eb04c68d2576c35b2c9c4388714a924970bd20'',
      current_hash = None\<rparr>"

section \<open>The validator as a condition on every link\<close>

declare valid_chain_loop.simps [simp del]
declare sha_blocks.simps [simp del]
declare dec_digits.simps [simp del]

lemma valid_chain_loop_unfold:
  "valid_chain_loop c lb i =
     (if i < length c then link_ok lb (c ! i) \<and> valid_chain_loop c (c ! i) (Suc i) else True)"
  by (subst valid_chain_loop.simps) (simp add: Let_def link_ok_def)

lemma valid_chain_loop_links:
  "valid_chain_loop c lb i \<longleftrightarrow>
     (\<forall>j. i \<le> j \<and> j < length c \<longrightarrow> link_ok (if j = i then lb else c ! (j - 1)) (c ! j))"
proof (induction "length c - i" arbitrary: i lb)
  case 0
  then have "\<not> i < length c" by simp
  then show ?case by (subst valid_chain_loop_unfold) auto
next
  case (Suc n)
  then have lt: "i < length c" and n: "n = length c - Suc i" by simp_all
  have pick: "(if j = Suc i then c ! i else c ! (j - 1)) = c ! (j - 1)" for j
    by simp
  have step: "valid_chain_loop c (c ! i) (Suc i) \<longleftrightarrow>
      (\<forall>j. Suc i \<le> j \<and> j < length c \<longrightarrow> link_ok (c ! (j - 1)) (c ! j))"
    using Suc.hyps(1) [OF n, of "c ! i"] by (simp only: pick)
  have unf: "valid_chain_loop c lb i \<longleftrightarrow> link_ok lb (c ! i) \<and> valid_chain_loop c (c ! i) (Suc i)"
    using lt by (subst valid_chain_loop_unfold) simp
  show ?case
  proof
    assume "valid_chain_loop c lb i"
    with unf step have first: "link_ok lb (c ! i)"
      and rest: "\<And>j. Suc i \<le> j \<Longrightarrow> j < length c \<Longrightarrow> link_ok (c ! (j - 1)) (c ! j)"
      by blast+
    show "\<forall>j. i \<le> j \<and> j < length c \<longrightarrow> link_ok (if j = i then lb else c ! (j - 1)) (c ! j)"
    proof (intro allI impI)
      fix j assume j: "i \<le> j \<and> j < length c"
      show "link_ok (if j = i then lb else c ! (j - 1)) (c ! j)"
      proof (cases "j = i")
        case True
        with first show ?thesis by simp
      next
        case False
        with j have "Suc i \<le> j" by simp
        with rest j False show ?thesis by simp
      qed
    qed
  next
    assume all: "\<forall>j. i \<le> j \<and> j < length c \<longrightarrow> link_ok (if j = i then lb else c ! (j - 1)) (c ! j)"
    from all lt have "link_ok lb (c ! i)"
      by (metis order_refl)
    moreover have "link_ok (c ! (j - 1)) (c ! j)" if "Suc i \<le> j" "j < length c" for j
    proof -
      from that have "i \<le> j \<and> j < length c" and "j \<noteq> i" by simp_all
      with all show ?thesis by metis
    qed
    ultimately show "valid_chain_loop c lb i"
      using unf step by blast
  qed
qed

lemma valid_chain_returns:
  assumes "c \<noteq> []"
  shows "valid_chain c = Inr (\<forall>j. 1 \<le> j \<and> j < length c \<longrightarrow> link_ok (c ! (j - 1)) (c ! j))"
proof -
  from assms obtain b bs where c: "c = b # bs" by (cases c) auto
  then have hd: "c ! 0 = b" by simp
  have pick: "(if j = 1 then b else c ! (j - 1)) = c ! (j - 1)" for j
    using hd by auto
  have "valid_chain c = Inr (valid_chain_loop c b 1)"
    by (simp add: valid_chain_def c)
  also have "valid_chain_loop c b 1 \<longleftrightarrow> (\<forall>j. 1 \<le> j \<and> j < length c \<longrightarrow> link_ok (c ! (j - 1)) (c ! j))"
    by (simp only: valid_chain_loop_links pick)
  finally show ?thesis .
qed

lemma valid_chain_empty: "valid_chain [] = Inl IndexError"
  by (simp add: valid_chain_def)

lemma valid_chain_links:
  "valid_chain c = Inr True \<longleftrightarrow>
     c \<noteq> [] \<and> (\<forall>j. 1 \<le> j \<and> j < length c \<longrightarrow> link_ok (c ! (j - 1)) (c ! j))"
  by (cases "c = []") (simp_all add: valid_chain_empty valid_chain_returns)

lemma valid_chain_pair: "valid_chain [a, b] = Inr (link_ok a b)"
  by (simp add: valid_chain_def valid_chain_loop_unfold)

section \<open>Digests of concrete inputs\<close>

text \<open>
  The digest function agrees with the test vectors of FIPS 180-4 (one block and two
  blocks), and the serialisation gives the text \<^verbatim>\<open>json.dumps(block, sort_keys=True)\<close>
  writes for the example blocks. The other values are what the ledger computes for them.
\<close>

lemma sha256_abc:
  "sha256_hexdigest ''abc'' = ''ba7816bf8f01cfea414140de5dae2223b00361a396177a9cb410ff61f20015ad''"
  by code_simp

lemma sha256_two_blocks:
  "sha256_hexdigest ''abcdbcdecdefdefgefghfghighijhijkijkljklmklmnlmnomnopnopq'' =
   ''248d6a61d20638b8e5c026930c3e6039a33ce45964ff2167f6ecedd419db06c1''"
  by code_simp

lemma dumps_example_genesis:
  \<open>dumps example_genesis =
   ''{"current_hash": "c6036c568be949df3e288be1dcc5fcd7c6ea33ba9abf394c2cb971d6073b32f0", "index": 1, "previous_hash": "1", "proof": 100, "timestamp": 1700001069.0, "transactions": []}''\<close>
  by code_simp

lemma dumps_mined_block:
  \<open>dumps \<lparr>index = 2, timestamp = ''1700001200.0'',
          transactions = [\<lparr>sender = ''alice'', recipient = ''bob'', amount = PyFloat ''5.0''\<rparr>,
                          \<lparr>sender = ''0'', recipient = ''26c2a3b58d0e4c1f9b573f1f0a6d2e11'', amount = PyInt 1\<rparr>],
          proof_nonce = 1,
          previous_hash = ''10fe3075643178ddb271449895eb04c68d2576c35b2c9c4388714a924970bd20'',
          current_hash = None\<rparr> =
   ''{"current_hash": null, "index": 2, "previous_hash": "10fe3075643178ddb271449895eb04c68d2576c35b2c9c4388714a924970bd20", "proof": 1, "timestamp": 1700001200.0, "transactions": [{"amount": 5.0, "recipient": "bob", "sender": "alice"}, {"amount": 1, "recipient": "26c2a3b58d0e4c1f9b573f1f0a6d2e11", "sender": "0"}]}''\<close>
  by code_simp

lemma json_str_escapes:
  "json_str [CHR ''a'', CHR 0x22, CHR ''b'', CHR 0x5C, CHR ''c'', CHR 0x0A, CHR 0xE9, CHR 0x7F] =
   [CHR 0x22, CHR ''a'', CHR 0x5C, CHR 0x22, CHR ''b'', CHR 0x5C, CHR 0x5C, CHR ''c'', CHR 0x5C, CHR ''n'',
    CHR 0x5C, CHR ''u'', CHR ''0'', CHR ''0'', CHR ''e'', CHR ''9'',
    CHR 0x5C, CHR ''u'', CHR ''0'', CHR ''0'', CHR ''7'', CHR ''f'', CHR 0x22]"
  by code_simp

lemma hash_genesis_placeholder:
  "hash \<lparr>index = 1, timestamp = ''1700001069.0'', transactions = [], proof_nonce = 100,
         previous_hash = ''1'', current_hash = None\<rparr> =
   ''c6036c568be949df3e288be1dcc5fcd7c6ea33ba9abf394c2cb971d6073b32f0''"
  by code_simp

lemma hash_example_genesis:
  "hash example_genesis = ''10fe3075643178ddb271449895eb04c68d2576c35b2c9c4388714a924970bd20''"
  by code_simp

lemma hash_example_tampered:
  "hash (example_genesis\<lparr>timestamp := ''1700001070.0''\<rparr>) =
   ''10404a6514efc34415035f3f5c9599dd8c08a12d1ab50b9d45c42738d1749ca8''"
  by code_simp

lemma pow_example_genesis:
  "pow_loop 100 ''10fe3075643178ddb271449895eb04c68d2576c35b2c9c4388714a924970bd20'' 0 = Some 1"
  by code_simp

lemma stored_hash_rejects_1:
  "\<not> valid_proof 100 1 ''c6036c568be949df3e288be1dcc5fcd7c6ea33ba9abf394c2cb971d6073b32f0''"
  by code_simp

lemma stored_hash_accepts_9:
  "valid_proof 100 9 ''c6036c568be949df3e288be1dcc5fcd7c6ea33ba9abf394c2cb971d6073b32f0''"
  by code_simp



lemma example_genesis_fields:
  "index example_genesis = 1" "proof_nonce example_genesis = 100"
  "current_hash example_genesis = Some ''c6036c568be949df3e288be1dcc5fcd7c6ea33ba9abf394c2cb971d6073b32f0''"
  by (simp_all add: example_genesis_def)

section \<open>Proof of work\<close>








section \<open>The validator on short chains\<close>

text \<open>
  C5, as amended. On a chain of fewer than two blocks the validator returns True when the
  chain has one block; on the empty chain \<^verbatim>\<open>chain[0]\<close> raises IndexError.
\<close>

theorem valid_chain_short:
  assumes "length c < 2"
  shows "valid_chain c = (if c = [] then Inl IndexError else Inr True)"
proof (cases "c = []")
  case True
  then show ?thesis by (simp add: valid_chain_empty)
next
  case False
  from assms have "\<forall>j. 1 \<le> j \<and> j < length c \<longrightarrow> link_ok (c ! (j - 1)) (c ! j)"
    by auto
  with valid_chain_returns [OF False] False show ?thesis by simp
qed

text \<open>
  C5, as amended, on the chain that holds the example genesis block only.
\<close>

theorem valid_chain_short_witness:
  "length [example_genesis] < 2 \<and> valid_chain [example_genesis] = Inr True"
  using valid_chain_short [of "[example_genesis]"] by simp

text \<open>
  C5 as stated fails on the empty chain, which has fewer than two blocks.
\<close>

theorem valid_chain_short_counterexample:
  "length ([] :: block list) < 2 \<and> valid_chain [] \<noteq> Inr True"
  by (simp add: valid_chain_empty)

section \<open>The ledger operations\<close>


lemma last_block_nonempty: "chain bc \<noteq> [] \<Longrightarrow> last_block bc = Inr (last (chain bc))"
  by (simp add: last_block_def)

lemma new_transaction_nonempty:
  "chain bc \<noteq> [] \<Longrightarrow>
   new_transaction s r a bc =
     (Inr (index (last (chain bc)) + 1),
      bc\<lparr>current_transactions := current_transactions bc @ [\<lparr>sender = s, recipient = r, amount = a\<rparr>]\<rparr>)"
  by (simp add: new_transaction_def last_block_def Let_def)

lemma mine_block_nonempty:
  assumes "chain bc \<noteq> []" and "current_transactions bc \<noteq> []"
  shows "mine_block uuid now bc =
     (case proof_of_work (last (chain bc)) of
        None \<Rightarrow> None
      | Some prf \<Rightarrow> Some (Inr (NewBlockMined (forged uuid now prf bc)),
                            \<lparr>current_transactions = [], chain = chain bc @ [forged uuid now prf bc]\<rparr>))"
  using assms
  by (simp add: mine_block_def last_block_def new_transaction_def new_block_def previous_or_hash_def
      forged_def Let_def split: option.splits)

lemma Blockchain_example:
  "Blockchain ''1700001069.0'' = \<lparr>current_transactions = [], chain = [example_genesis]\<rparr>"
  by (simp add: Blockchain_def new_block_def previous_or_hash_def Let_def
      hash_genesis_placeholder example_genesis_def)

lemma proof_of_work_example: "proof_of_work example_genesis = Some 1"
  by (simp add: proof_of_work_def example_genesis_fields hash_example_genesis pow_example_genesis)

text \<open>
  C6. With an empty \<^verbatim>\<open>current_transactions\<close>, \<^verbatim>\<open>mine_block\<close> takes its early return: it
  prints that there are no transactions to mine and leaves the ledger, chain included, as
  it was.
\<close>

theorem mine_block_no_transactions:
  "current_transactions bc = [] \<Longrightarrow>
     mine_block uuid now bc = Some (Inr NoTransactionsToMine, bc) \<and>
     printed NoTransactionsToMine = ''No transactions to mine.''"
  by (simp add: mine_block_def printed_def)

text \<open>
  C6 on the fresh example ledger, where nothing is pending.
\<close>

theorem mine_block_no_transactions_witness:
  "current_transactions \<lparr>current_transactions = [], chain = [example_genesis]\<rparr> = [] \<and>
   mine_block ''26c2a3b5-8d0e-4c1f-9b57-3f1f0a6d2e11'' ''1700001200.0''
     \<lparr>current_transactions = [], chain = [example_genesis]\<rparr> =
   Some (Inr NoTransactionsToMine, \<lparr>current_transactions = [], chain = [example_genesis]\<rparr>)"
  using mine_block_no_transactions [of "\<lparr>current_transactions = [], chain = [example_genesis]\<rparr>"
      "''26c2a3b5-8d0e-4c1f-9b57-3f1f0a6d2e11''" "''1700001200.0''"]
  by simp

text \<open>
  C7. A fresh \<^verbatim>\<open>Blockchain()\<close> has exactly one block, with index 1, previous hash \<^verbatim>\<open>'1'\<close>,
  proof 100 and no transactions, and nothing is pending.
\<close>

theorem genesis_invariant:
  "length (chain (Blockchain now)) = 1 \<and>
   index (chain (Blockchain now) ! 0) = 1 \<and>
   previous_hash (chain (Blockchain now) ! 0) = ''1'' \<and>
   proof_nonce (chain (Blockchain now) ! 0) = 100 \<and>
   transactions (chain (Blockchain now) ! 0) = [] \<and>
   current_transactions (Blockchain now) = []"
  by (simp add: Blockchain_def new_block_def previous_or_hash_def Let_def)

text \<open>
  C8. On a ledger with a non-empty chain, \<^verbatim>\<open>new_transaction\<close> appends exactly the given
  transaction to \<^verbatim>\<open>current_transactions\<close>, leaves the chain as it was and returns the
  index of the last block plus one.
\<close>

theorem new_transaction_frame:
  assumes "chain bc \<noteq> []"
  shows "fst (new_transaction s r a bc) = Inr (index (last (chain bc)) + 1) \<and>
         current_transactions (snd (new_transaction s r a bc)) =
           current_transactions bc @ [\<lparr>sender = s, recipient = r, amount = a\<rparr>] \<and>
         chain (snd (new_transaction s r a bc)) = chain bc"
  by (simp add: new_transaction_nonempty [OF assms])

text \<open>
  C8 on the fresh example ledger: the call returns 2.
\<close>

theorem new_transaction_frame_witness:
  "chain (Blockchain ''1700001069.0'') \<noteq> [] \<and>
   new_transaction ''alice'' ''bob'' (PyFloat ''5.0'') (Blockchain ''1700001069.0'') =
     (Inr 2, \<lparr>current_transactions = [\<lparr>sender = ''alice'', recipient = ''bob'', amount = PyFloat ''5.0''\<rparr>],
              chain = [example_genesis]\<rparr>)"
proof -
  have ne: "chain (Blockchain ''1700001069.0'') \<noteq> []"
    by (simp add: Blockchain_example)
  from new_transaction_frame [OF ne, of "''alice''" "''bob''" "PyFloat ''5.0''"] ne
  show ?thesis
    by (cases "new_transaction ''alice'' ''bob'' (PyFloat ''5.0'') (Blockchain ''1700001069.0'')")
       (simp add: Blockchain_example example_genesis_fields)
qed

section \<open>What the hash covers\<close>




section \<open>Indices along the chain\<close>

lemma contiguous_snoc:
  assumes "contiguous c" and "index b = int (length c) + 1"
  shows "contiguous (c @ [b])"
proof -
  have "index ((c @ [b]) ! k) = int k + 1" if "k < Suc (length c)" for k
  proof (cases "k < length c")
    case True
    with assms(1) show ?thesis by (simp add: contiguous_def nth_append)
  next
    case False
    with that have "k = length c" by simp
    with assms(2) show ?thesis by simp
  qed
  then show ?thesis by (simp add: contiguous_def)
qed

lemma index_forged: "index (forged uuid now prf bc) = int (length (chain bc)) + 1"
  by (simp add: forged_def Let_def)

lemma contiguous_init: "contiguous (chain (Blockchain now))"
  by (simp add: contiguous_def Blockchain_def new_block_def previous_or_hash_def Let_def)

lemma apply_operation_contiguous:
  assumes inv: "contiguous (chain bc)" and ret: "apply_operation operation bc = Some r"
  shows "\<exists>bc'. r = Inr bc' \<and> contiguous (chain bc')"
proof -
  from inv have ne: "chain bc \<noteq> []" by (simp add: contiguous_def)
  show ?thesis
  proof (cases operation)
    case (SubmitTransaction s rcp a)
    with ret inv show ?thesis by (auto simp: new_transaction_nonempty [OF ne])
  next
    case (MineBlock uuid now)
    show ?thesis
    proof (cases "current_transactions bc = []")
      case True
      with ret inv MineBlock show ?thesis by (auto simp: mine_block_def)
    next
      case False
      note mb = mine_block_nonempty [OF ne False, of uuid now]
      show ?thesis
      proof (cases "proof_of_work (last (chain bc))")
        case None
        with mb ret MineBlock show ?thesis by simp
      next
        case (Some p)
        with mb ret MineBlock
        have "r = Inr \<lparr>current_transactions = [], chain = chain bc @ [forged uuid now p bc]\<rparr>"
          by auto
        moreover have "contiguous (chain bc @ [forged uuid now p bc])"
          using inv index_forged by (rule contiguous_snoc)
        ultimately show ?thesis by simp
      qed
    qed
  qed
qed

lemma run_contiguous:
  "contiguous (chain bc) \<Longrightarrow> run ops bc = Some r \<Longrightarrow> \<exists>bc'. r = Inr bc' \<and> contiguous (chain bc')"
proof (induction ops arbitrary: bc)
  case Nil
  then show ?case by auto
next
  case (Cons operation ops)
  show ?case
  proof (cases "apply_operation operation bc")
    case None
    with Cons.prems(2) show ?thesis by simp
  next
    case (Some x)
    from apply_operation_contiguous [OF Cons.prems(1) Some]
    obtain bc' where x: "x = Inr bc'" and c: "contiguous (chain bc')" by blast
    with Some Cons.prems(2) have "run ops bc' = Some r" by simp
    from Cons.IH [OF c this] show ?thesis .
  qed
qed

lemma example_session:
  "run [SubmitTransaction ''alice'' ''bob'' (PyFloat ''5.0''), MineBlock uuid now]
       (Blockchain ''1700001069.0'') =
   Some (Inr \<lparr>current_transactions = [],
              chain = [example_genesis,
                       forged uuid now 1
                         \<lparr>current_transactions =
                            [\<lparr>sender = ''alice'', recipient = ''bob'', amount = PyFloat ''5.0''\<rparr>],
                          chain = [example_genesis]\<rparr>]\<rparr>)"
proof -
  let ?bc1 = "\<lparr>current_transactions = [\<lparr>sender = ''alice'', recipient = ''bob'', amount = PyFloat ''5.0''\<rparr>],
               chain = [example_genesis]\<rparr>"
  have submit: "new_transaction ''alice'' ''bob'' (PyFloat ''5.0'') (Blockchain ''1700001069.0'') = (Inr 2, ?bc1)"
    by (simp add: Blockchain_example new_transaction_nonempty example_genesis_fields)
  have mine: "mine_block uuid now ?bc1 =
      Some (Inr (NewBlockMined (forged uuid now 1 ?bc1)),
            \<lparr>current_transactions = [], chain = [example_genesis, forged uuid now 1 ?bc1]\<rparr>)"
    using mine_block_nonempty [of ?bc1 uuid now] by (simp add: proof_of_work_example)
  show ?thesis by (simp add: submit mine)
qed

text \<open>
  C10. After construction and after any sequence of \<^verbatim>\<open>new_transaction\<close> and
  \<^verbatim>\<open>mine_block\<close> calls that has returned, no exception was raised, the chain is not empty,
  the block at position \<open>k\<close> has index \<open>k + 1\<close>, and \<^verbatim>\<open>last_block\<close> returns the last
  block.
\<close>

theorem chain_contiguous:
  assumes "run ops (Blockchain now) = Some r"
  shows "\<exists>bc. r = Inr bc \<and> chain bc \<noteq> [] \<and>
              (\<forall>k<length (chain bc). index (chain bc ! k) = int k + 1) \<and>
              last_block bc = Inr (last (chain bc))"
proof -
  from run_contiguous [OF contiguous_init assms]
  obtain bc where "r = Inr bc" and "contiguous (chain bc)" by blast
  then show ?thesis by (auto simp: contiguous_def last_block_def)
qed

text \<open>
  C10 on the example ledger after one transaction and one mined block.
\<close>

theorem chain_contiguous_witness:
  "\<exists>bc. run [SubmitTransaction ''alice'' ''bob'' (PyFloat ''5.0''),
             MineBlock ''26c2a3b5-8d0e-4c1f-9b57-3f1f0a6d2e11'' ''1700001200.0'']
            (Blockchain ''1700001069.0'') = Some (Inr bc) \<and>
        length (chain bc) = 2 \<and> index (chain bc ! 0) = 1 \<and> index (chain bc ! 1) = 2 \<and>
        last_block bc = Inr (last (chain bc))"
proof -
  let ?bc = "\<lparr>current_transactions = [],
              chain = [example_genesis,
                       forged ''26c2a3b5-8d0e-4c1f-9b57-3f1f0a6d2e11'' ''1700001200.0'' 1
                         \<lparr>current_transactions =
                            [\<lparr>sender = ''alice'', recipient = ''bob'', amount = PyFloat ''5.0''\<rparr>],
                          chain = [example_genesis]\<rparr>]\<rparr>"
  note r = example_session [of "''26c2a3b5-8d0e-4c1f-9b57-3f1f0a6d2e11''" "''1700001200.0''"]
  have len: "length (chain ?bc) = 2" by simp
  from chain_contiguous [OF r] len
  have "index (chain ?bc ! 0) = 1" "index (chain ?bc ! 1) = 2" "last_block ?bc = Inr (last (chain ?bc))"
    by auto
  with r len show ?thesis by blast
qed

section \<open>The validator on the ledger's own chain\<close>

text \<open>
  C1 fails. \<^verbatim>\<open>proof_of_work\<close> searches with the seed \<^verbatim>\<open>self.hash(last_block)\<close>, the hash of
  the stored block, while \<^verbatim>\<open>valid_chain\<close> checks the proof against the seed
  \<^verbatim>\<open>last_block['current_hash']\<close>, the hash taken while that entry was None. On the ledger
  constructed at time 1700001069.0, after one transaction, mining succeeds (with
  proof 1), whatever the uuid and the time of the new block, and the validator returns
  False on the chain of the ledger.
\<close>

theorem validator_rejects_mined_chain:
  "\<exists>bc. run [SubmitTransaction ''alice'' ''bob'' (PyFloat ''5.0''), MineBlock uuid now]
            (Blockchain ''1700001069.0'') = Some (Inr bc) \<and>
        length (chain bc) = 2 \<and> proof_nonce (chain bc ! 1) = 1 \<and>
        valid_chain (chain bc) = Inr False"
proof -
  let ?bc1 = "\<lparr>current_transactions = [\<lparr>sender = ''alice'', recipient = ''bob'', amount = PyFloat ''5.0''\<rparr>],
               chain = [example_genesis]\<rparr>"
  let ?b = "forged uuid now 1 ?bc1"
  let ?bc2 = "\<lparr>current_transactions = [], chain = [example_genesis, ?b]\<rparr>"
  have nonce: "proof_nonce ?b = 1" and "previous_hash ?b = hash example_genesis"
    by (simp_all add: forged_def Let_def)
  then have "\<not> link_ok example_genesis ?b"
    by (simp add: link_ok_def example_genesis_fields str_opt_def stored_hash_rejects_1)
  then have "valid_chain (chain ?bc2) = Inr False"
    by (simp add: valid_chain_pair)
  with example_session [of uuid now] nonce show ?thesis by simp
qed

section \<open>Replaced blocks\<close>

text \<open>
  A digest has 64 characters, so there are finitely many digests, while the index of a
  block is an unbounded integer: the hash cannot tell all blocks apart. Which blocks
  share a hash is not known.
\<close>

lemma length_hex_state: "length (hex_state s) = 64"
  by (cases s rule: hex_state.cases) (simp add: hex32_def)

lemma length_sha256_hexdigest: "length (sha256_hexdigest m) = 64"
  by (simp add: sha256_hexdigest_def length_hex_state)

lemma finite_digests: "finite (range sha256_hexdigest)"
proof -
  have "range sha256_hexdigest \<subseteq> {xs. set xs \<subseteq> (UNIV :: char set) \<and> length xs = 64}"
    by (auto simp: length_sha256_hexdigest)
  moreover have "finite {xs. set xs \<subseteq> (UNIV :: char set) \<and> length xs = 64}"
    by (rule finite_lists_length_eq) simp
  ultimately show ?thesis by (rule finite_subset)
qed

lemma hash_collision:
  "\<exists>i j. i \<noteq> j \<and> hash (b\<lparr>index := i\<rparr>) = hash (b\<lparr>index := j\<rparr>)"
proof (rule ccontr)
  assume "\<not> ?thesis"
  then have inj: "inj (\<lambda>i. hash (b\<lparr>index := i\<rparr>))"
    by (auto simp: inj_on_def)
  have "range (\<lambda>i. hash (b\<lparr>index := i\<rparr>)) \<subseteq> range sha256_hexdigest"
    by (auto simp: hash_def)
  with finite_digests have "finite (range (\<lambda>i. hash (b\<lparr>index := i\<rparr>)))"
    by (rule rev_finite_subset)
  from finite_imageD [OF this inj] have "finite (UNIV :: int set)" .
  then show False by (simp add: infinite_UNIV_int)
qed

text \<open>
  The validator compares the stored \<open>previous_hash\<close> of each block with the hash of the
  block before it. So, in a chain it accepts, a block other than the last one cannot be
  replaced by a block with another hash: the validator then returns False. On the two
  example blocks, changing the timestamp of the first one from 1700001069.0 to
  1700001070.0 is such a replacement.
\<close>

lemma example_chain_valid: "valid_chain [example_genesis, example_successor] = Inr True"
proof -
  have "previous_hash example_successor = hash example_genesis"
    by (simp add: hash_example_genesis example_successor_def)
  moreover have "proof_nonce example_successor = 9"
    by (simp add: example_successor_def)
  ultimately show ?thesis
    by (simp add: valid_chain_pair link_ok_def example_genesis_fields str_opt_def stored_hash_accepts_9)
qed

lemma changed_hash_rejected:
  assumes valid: "valid_chain c = Inr True"
    and k: "Suc k < length c"
    and changed: "hash b' \<noteq> hash (c ! k)"
  shows "valid_chain (c[k := b']) = Inr False"
proof -
  let ?c' = "c[k := b']"
  from k have ne: "?c' \<noteq> []" by auto
  from valid have all: "\<forall>j. 1 \<le> j \<and> j < length c \<longrightarrow> link_ok (c ! (j - 1)) (c ! j)"
    by (simp add: valid_chain_links)
  from all [rule_format, of "Suc k"] k have "link_ok (c ! k) (c ! Suc k)" by simp
  then have "previous_hash (c ! Suc k) = hash (c ! k)" by (simp add: link_ok_def)
  with changed have broken: "\<not> link_ok b' (c ! Suc k)" by (simp add: link_ok_def)
  have "\<not> (\<forall>j. 1 \<le> j \<and> j < length ?c' \<longrightarrow> link_ok (?c' ! (j - 1)) (?c' ! j))"
  proof
    assume a: "\<forall>j. 1 \<le> j \<and> j < length ?c' \<longrightarrow> link_ok (?c' ! (j - 1)) (?c' ! j)"
    from a [rule_format, of "Suc k"] k have "link_ok b' (c ! Suc k)" by simp
    with broken show False by simp
  qed
  with valid_chain_returns [OF ne] show ?thesis by simp
qed

lemma example_tamper_rejected:
  "valid_chain [example_genesis\<lparr>timestamp := ''1700001070.0''\<rparr>, example_successor] = Inr False"
proof -
  have changed: "hash (example_genesis\<lparr>timestamp := ''1700001070.0''\<rparr>) \<noteq>
      hash ([example_genesis, example_successor] ! 0)"
    by (simp add: hash_example_tampered hash_example_genesis)
  have len: "Suc 0 < length [example_genesis, example_successor]" by simp
  from changed_hash_rejected [OF example_chain_valid len changed]
  show ?thesis by simp
qed

end
